theory Spec2Isabelle
  imports Main "HOL-Library.Sublist"
begin

section \<open>The naming function\<close>

text \<open>
  The script \<^verbatim>\<open>helpers/sprite_into_tiles.py\<close> cuts a sheet of chess pieces into twelve
  tiles and names each tile after its position in the sheet.
  \<^verbatim>\<open>
  def name(idx):
      color = "white" if idx < 6 else "black"
      piece = idx % 6
      name = ""
      match piece:
          case 0: name = "king"
          case 1: name = "queen"
          case 2: name = "bishop"
          case 3: name = "knight"
          case 4: name = "rook"
          case 5: name = "pawn"
      return f"{color}_{name}"
  \<close>
  Python integers are unbounded, so \<open>idx\<close> is an \<open>int\<close>. Python's \<open>%\<close> with a positive
  divisor is the floor remainder, which is \<open>mod\<close> on \<open>int\<close>. A \<open>match\<close> in which no case
  applies leaves the local \<open>name\<close> at its initial value, the empty string; the last
  \<open>else\<close> below is that branch.
\<close>

definition name :: "int \<Rightarrow> string" where
  "name idx =
     (let color = (if idx < 6 then ''white'' else ''black'');
          piece = idx mod 6;
          name0 = '''';
          name1 = (if piece = 0 then ''king''
                   else if piece = 1 then ''queen''
                   else if piece = 2 then ''bishop''
                   else if piece = 3 then ''knight''
                   else if piece = 4 then ''rook''
                   else if piece = 5 then ''pawn''
                   else name0)
      in color @ ''_'' @ name1)"

section \<open>Images and the file system\<close>

text \<open>
  The module body calls \<open>os.mkdir\<close>, \<open>Image.open\<close>, \<open>Image.crop\<close> and \<open>Image.save\<close>.
  Their effects are made explicit on a \<open>world\<close>: the entries of the working directory
  (a file, or a subdirectory with its own files) and a log of the effects that took
  place, in order. When \<open>mkdir\<close>, \<open>open\<close> or \<open>crop\<close> raises, the result is \<open>Inl\<close> and the world
  stays as it was.

  A crop box is Pillow's 4-tuple (left, upper, right, lower).
\<close>

type_synonym box = "int \<times> int \<times> int \<times> int"

text \<open>
  An image has a size, pixel values (read at positions inside the size) and one of
  Pillow's standard modes. \<open>Image.open\<close> is lazy: it identifies the file from its header
  and reads the pixel data only when the image is first loaded, which \<open>crop\<close> does.
  \<open>data_ok\<close> says that this load succeeds; it is false for a file whose data is cut
  short. The PNG writer stores every mode but the five named in \<open>png_mode\<close>.
\<close>

datatype mode =
  Mode1 | ModeL | ModeLA | ModeI | ModeP | ModeRGB | ModeRGBA
  | ModeCMYK | ModeYCbCr | ModeLAB | ModeHSV | ModeF

definition png_mode :: "mode \<Rightarrow> bool" where
  "png_mode m = (m \<notin> {ModeCMYK, ModeYCbCr, ModeLAB, ModeHSV, ModeF})"

record image =
  width :: int
  height :: int
  pixel :: "int \<Rightarrow> int \<Rightarrow> nat"
  mode :: mode
  data_ok :: bool

datatype content = Picture image | Unidentified

datatype node = File content | Dir "string \<rightharpoonup> content"

datatype error =
  FileExistsError | FileNotFoundError | NotADirectoryError | IsADirectoryError
  | UnidentifiedImageError | CropError | SaveError

datatype event = Mkdir string | Open string | Crop box | Save string

record world =
  entries :: "string \<rightharpoonup> node"
  log :: "event list"

text \<open>
  Paths are relative to the working directory and at most one level deep, which is all
  the script uses: \<open>tiles/\<close> names the entry \<open>tiles\<close>, and \<open>tiles/x.png\<close> names the file
  \<open>x.png\<close> of the directory entry \<open>tiles\<close>.
\<close>

definition dir_key :: "string \<Rightarrow> string" where
  "dir_key p = (if p \<noteq> [] \<and> last p = CHR ''/'' then butlast p else p)"

definition split_path :: "string \<Rightarrow> string option \<times> string" where
  "split_path p =
     (if CHR ''/'' \<in> set p
      then (Some (takeWhile (\<lambda>c. c \<noteq> CHR ''/'') p), tl (dropWhile (\<lambda>c. c \<noteq> CHR ''/'') p))
      else (None, p))"

text \<open>\<open>os.mkdir\<close> raises \<open>FileExistsError\<close> when the name is taken, by a directory or a file.\<close>

definition mkdir :: "string \<Rightarrow> world \<Rightarrow> error + world" where
  "mkdir p w =
     (case entries w (dir_key p) of
        Some _ \<Rightarrow> Inl FileExistsError
      | None \<Rightarrow> Inr (w\<lparr>entries := (entries w)(dir_key p \<mapsto> Dir Map.empty),
                        log := log w @ [Mkdir p]\<rparr>))"

definition lookup_file :: "world \<Rightarrow> string \<Rightarrow> error + content" where
  "lookup_file w p =
     (case split_path p of
        (None, f) \<Rightarrow>
          (case entries w f of
             None \<Rightarrow> Inl FileNotFoundError
           | Some (Dir _) \<Rightarrow> Inl IsADirectoryError
           | Some (File c) \<Rightarrow> Inr c)
      | (Some d, f) \<Rightarrow>
          (case entries w d of
             None \<Rightarrow> Inl FileNotFoundError
           | Some (File _) \<Rightarrow> Inl NotADirectoryError
           | Some (Dir m) \<Rightarrow> (case m f of None \<Rightarrow> Inl FileNotFoundError | Some c \<Rightarrow> Inr c)))"

text \<open>
  \<open>Image.open\<close> raises when the file is missing or is not an image Pillow identifies.
\<close>

definition image_open :: "string \<Rightarrow> world \<Rightarrow> error + image \<times> world" where
  "image_open p w =
     (case lookup_file w p of
        Inl e \<Rightarrow> Inl e
      | Inr Unidentified \<Rightarrow> Inl UnidentifiedImageError
      | Inr (Picture img) \<Rightarrow> Inr (img, w\<lparr>log := log w @ [Open p]\<rparr>))"

text \<open>
  What \<open>Image.crop\<close> returns for a box is the imaging library's business, not the
  script's: it is a parameter \<open>crop\<close> of the model, \<open>None\<close> standing for any exception
  the library raises. The script's own properties are proved for every \<open>crop\<close>.
\<close>

definition image_crop ::
  "(image \<Rightarrow> box \<Rightarrow> image option) \<Rightarrow> image \<Rightarrow> box \<Rightarrow> world \<Rightarrow> error + image \<times> world" where
  "image_crop crop img b w =
     (case crop img b of
        None \<Rightarrow> Inl CropError
      | Some tile \<Rightarrow> Inr (tile, w\<lparr>log := log w @ [Crop b]\<rparr>))"

text \<open>
  \<open>Image.save\<close> opens the file for writing, which needs the directory and empties a
  file that is already there, and then encodes the image. The PNG encoder raises for a
  mode it cannot store and for an image with no pixels; \<open>SaveError\<close> stands for that
  exception. Pillow then removes the file if the call created it; a file that was
  there before is left empty. So a save that raises can change the world, and
  \<open>image_save\<close> returns the world in both cases. Failures of the storage itself (no
  space, no permission) are not modelled.
\<close>

definition png_encodes :: "image \<Rightarrow> bool" where
  "png_encodes img = (png_mode (mode img) \<and> 0 < width img \<and> 0 < height img)"

definition image_save :: "image \<Rightarrow> string \<Rightarrow> world \<Rightarrow> error option \<times> world" where
  "image_save img p w =
     (case split_path p of
        (None, f) \<Rightarrow>
          (case entries w f of
             Some (Dir _) \<Rightarrow> (Some IsADirectoryError, w)
           | Some (File _) \<Rightarrow>
               if png_encodes img
               then (None, w\<lparr>entries := (entries w)(f \<mapsto> File (Picture img)),
                             log := log w @ [Save p]\<rparr>)
               else (Some SaveError, w\<lparr>entries := (entries w)(f \<mapsto> File Unidentified)\<rparr>)
           | None \<Rightarrow>
               if png_encodes img
               then (None, w\<lparr>entries := (entries w)(f \<mapsto> File (Picture img)),
                             log := log w @ [Save p]\<rparr>)
               else (Some SaveError, w))
      | (Some d, f) \<Rightarrow>
          (case entries w d of
             None \<Rightarrow> (Some FileNotFoundError, w)
           | Some (File _) \<Rightarrow> (Some NotADirectoryError, w)
           | Some (Dir m) \<Rightarrow>
               if png_encodes img
               then (None, w\<lparr>entries := (entries w)(d \<mapsto> Dir (m(f \<mapsto> Picture img))),
                             log := log w @ [Save p]\<rparr>)
               else (case m f of
                       None \<Rightarrow> (Some SaveError, w)
                     | Some _ \<Rightarrow>
                         (Some SaveError,
                          w\<lparr>entries := (entries w)(d \<mapsto> Dir (m(f \<mapsto> Unidentified)))\<rparr>))))"

text \<open>
  Pillow's own \<open>Image.crop\<close>. It raises when right is less than left or lower less
  than upper, when loading the pixel data fails, when the box has more than twice
  89478485 pixels, and when a coordinate does not fit a C integer. It does not compare
  the box with the size of the image: the region \<open>pil_region\<close> it returns has the size of
  the box and the mode of the image, and its pixels that lie outside the image are zero.
\<close>

definition c_int :: "int \<Rightarrow> bool" where
  "c_int n = (- 2147483648 \<le> n \<and> n \<le> 2147483647)"

definition pil_region :: "image \<Rightarrow> box \<Rightarrow> image" where
  "pil_region img b =
     (case b of (x0, y0, x1, y1) \<Rightarrow>
        \<lparr>width = x1 - x0, height = y1 - y0,
         pixel = (\<lambda>x y. if 0 \<le> x0 + x \<and> x0 + x < width img
                            \<and> 0 \<le> y0 + y \<and> y0 + y < height img
                         then pixel img (x0 + x) (y0 + y) else 0),
         mode = mode img, data_ok = True\<rparr>)"

definition pil_crop :: "image \<Rightarrow> box \<Rightarrow> image option" where
  "pil_crop img b =
     (case b of (x0, y0, x1, y1) \<Rightarrow>
        if x1 < x0 \<or> y1 < y0 then None
        else if \<not> data_ok img then None
        else if 2 * 89478485 < (x1 - x0) * (y1 - y0) then None
        else if \<not> (c_int x0 \<and> c_int y0 \<and> c_int x1 \<and> c_int y1) then None
        else Some (pil_region img b))"

section \<open>The module body\<close>

text \<open>
  \<^verbatim>\<open>
  mkdir("tiles/")
  sheet = Image.open("sprites.png")
  i = 0
  l = 213
  for y in range(2):
      for x in range(6):
          x0 = x*l
          y0 = y*l
          x1 = x0 + l
          y1 = y0 + l
          sheet.crop(( x0, y0, x1, y1 )).save(f"tiles/{name(i)}.png")
          i += 1
  \<close>
  The loops thread the counter \<open>i\<close> and the world; the first exception ends the run, and
  the world is the one reached at that moment. \<open>body\<close> is one pass of the inner loop,
  \<open>for_x\<close> the inner loop, \<open>for_y\<close> the outer one and \<open>sprite_into_tiles\<close> the whole
  module. The result is the exception raised, if any, and the final world.
\<close>

definition range_int :: "int \<Rightarrow> int list" where
  "range_int n = [0..n - 1]"

definition l :: int where
  "l = 213"

definition body ::
  "(image \<Rightarrow> box \<Rightarrow> image option) \<Rightarrow> image \<Rightarrow> int \<Rightarrow> int \<Rightarrow> int \<times> world
     \<Rightarrow> error option \<times> int \<times> world" where
  "body crop sheet y x s =
     (case s of (i, w) \<Rightarrow>
        let x0 = x * l; y0 = y * l; x1 = x0 + l; y1 = y0 + l in
        case image_crop crop sheet (x0, y0, x1, y1) w of
          Inl e \<Rightarrow> (Some e, i, w)
        | Inr (tile, w1) \<Rightarrow>
            (case image_save tile (''tiles/'' @ name i @ ''.png'') w1 of
               (Some e, w2) \<Rightarrow> (Some e, i, w2)
             | (None, w2) \<Rightarrow> (None, i + 1, w2)))"

fun for_x ::
  "(image \<Rightarrow> box \<Rightarrow> image option) \<Rightarrow> image \<Rightarrow> int \<Rightarrow> int list \<Rightarrow> int \<times> world
     \<Rightarrow> error option \<times> int \<times> world" where
  "for_x crop sheet y [] s = (None, s)"
| "for_x crop sheet y (x # xs) s =
     (case body crop sheet y x s of
        (Some e, s') \<Rightarrow> (Some e, s')
      | (None, s') \<Rightarrow> for_x crop sheet y xs s')"

fun for_y ::
  "(image \<Rightarrow> box \<Rightarrow> image option) \<Rightarrow> image \<Rightarrow> int list \<Rightarrow> int \<times> world
     \<Rightarrow> error option \<times> int \<times> world" where
  "for_y crop sheet [] s = (None, s)"
| "for_y crop sheet (y # ys) s =
     (case for_x crop sheet y (range_int 6) s of
        (Some e, s') \<Rightarrow> (Some e, s')
      | (None, s') \<Rightarrow> for_y crop sheet ys s')"

definition sprite_into_tiles ::
  "(image \<Rightarrow> box \<Rightarrow> image option) \<Rightarrow> world \<Rightarrow> error option \<times> world" where
  "sprite_into_tiles crop w =
     (case mkdir ''tiles/'' w of
        Inl e \<Rightarrow> (Some e, w)
      | Inr w1 \<Rightarrow>
          (case image_open ''sprites.png'' w1 of
             Inl e \<Rightarrow> (Some e, w1)
           | Inr (sheet, w2) \<Rightarrow>
               (let i = 0 in
                case for_y crop sheet (range_int 2) (i, w2) of
                  (r, i', w3) \<Rightarrow> (r, w3))))"

section \<open>Observing a run\<close>

text \<open>
  \<open>events_of\<close> is what one run added to the log; \<open>crops\<close> and \<open>saves\<close> pick the boxes
  cropped and the paths written, in order. \<open>region\<close> is the set of pixel positions of a
  box: left and upper are inside, right and lower outside.
\<close>

definition events_of :: "(image \<Rightarrow> box \<Rightarrow> image option) \<Rightarrow> world \<Rightarrow> event list" where
  "events_of crop w = drop (length (log w)) (log (snd (sprite_into_tiles crop w)))"

fun crops :: "event list \<Rightarrow> box list" where
  "crops [] = []"
| "crops (Crop b # es) = b # crops es"
| "crops (e # es) = crops es"

fun saves :: "event list \<Rightarrow> string list" where
  "saves [] = []"
| "saves (Save p # es) = p # saves es"
| "saves (e # es) = saves es"

definition region :: "box \<Rightarrow> (int \<times> int) set" where
  "region b = (case b of (x0, y0, x1, y1) \<Rightarrow> {x0..<x1} \<times> {y0..<y1})"

text \<open>
  Worlds to run the script in: one with a sheet of the expected 1278 by 426 pixels, one
  with a sheet of 100 by 100 pixels, one with no \<open>sprites.png\<close>, and one where \<open>tiles/\<close>
  is already there.
\<close>

definition example_sheet :: image where
  "example_sheet = \<lparr>width = 1278, height = 426, pixel = (\<lambda>x y. nat ((x + y) mod 256)),
                      mode = ModeRGBA, data_ok = True\<rparr>"

definition example_world :: world where
  "example_world = \<lparr>entries = [''sprites.png'' \<mapsto> File (Picture example_sheet)], log = []\<rparr>"



definition empty_world :: world where
  "empty_world = \<lparr>entries = Map.empty, log = []\<rparr>"

definition occupied_world :: world where
  "occupied_world = \<lparr>entries = [''tiles'' \<mapsto> Dir Map.empty], log = []\<rparr>"

section \<open>What the loops establish\<close>

text \<open>
  \<open>cell_box\<close> is the box the loop body computes for column \<open>x\<close> and row \<open>y\<close>, and
  \<open>tile_path\<close> the path it saves tile \<open>i\<close> to. \<open>tile_events\<close> and \<open>grid_events\<close> are the
  events of an inner and an outer loop that run to their end.

  \<open>tiles_post\<close> relates the state \<open>s\<close> before a stretch of the loops to the result \<open>res\<close>
  after it, for a stretch whose full events are \<open>F\<close> and which advances the counter by
  \<open>n\<close>: only the directory \<open>tiles\<close> changes, the log grows by a prefix of \<open>F\<close>, the only
  exceptions are those of crop and of the encoder, and a stretch run to its end adds
  exactly the files named by the counter.

  \<open>tiles_written\<close> and \<open>grid_written\<close> are the files a run with Pillow's crop leaves in
  the directory.
\<close>

definition cell_box :: "int \<times> int \<Rightarrow> box" where
  "cell_box c = (case c of (x, y) \<Rightarrow> (x * l, y * l, x * l + l, y * l + l))"

definition tile_path :: "int \<Rightarrow> string" where
  "tile_path i = ''tiles/'' @ name i @ ''.png''"

fun tile_events :: "int \<Rightarrow> int list \<Rightarrow> int \<Rightarrow> event list" where
  "tile_events y [] i = []"
| "tile_events y (x # xs) i =
     Crop (cell_box (x, y)) # Save (tile_path i) # tile_events y xs (i + 1)"

fun grid_events :: "int list \<Rightarrow> int \<Rightarrow> event list" where
  "grid_events [] i = []"
| "grid_events (y # ys) i = tile_events y (range_int 6) i @ grid_events ys (i + 6)"

definition tiles_post ::
  "event list \<Rightarrow> int \<Rightarrow> int \<times> world \<Rightarrow> error option \<times> int \<times> world \<Rightarrow> bool" where
  "tiles_post F n s res =
     (\<exists>m m' evs.
        entries (snd s) ''tiles'' = Some (Dir m)
      \<and> entries (snd (snd res)) = (entries (snd s))(''tiles'' \<mapsto> Dir m')
      \<and> log (snd (snd res)) = log (snd s) @ evs
      \<and> prefix evs F
      \<and> (fst res = None \<or> fst res = Some CropError \<or> fst res = Some SaveError)
      \<and> (fst res = None \<longrightarrow> evs = F \<and> fst (snd res) = fst s + n
            \<and> dom m' = dom m \<union> (\<lambda>k. name k @ ''.png'') ` {fst s..<fst s + n}))"



section \<open>Lemmas on the naming function\<close>

lemma mod6_cases:
  fixes idx :: int
  obtains "idx mod 6 = 0" | "idx mod 6 = 1" | "idx mod 6 = 2"
        | "idx mod 6 = 3" | "idx mod 6 = 4" | "idx mod 6 = 5"
proof -
  have "0 \<le> idx mod 6" and "idx mod 6 < 6" by simp_all
  then have "idx mod 6 = 0 \<or> idx mod 6 = 1 \<or> idx mod 6 = 2
           \<or> idx mod 6 = 3 \<or> idx mod 6 = 4 \<or> idx mod 6 = 5"
    by arith
  with that show thesis by blast
qed

lemma name_eq:
  "name idx = (if idx < 6 then ''white'' else ''black'') @ ''_'' @
      [''king'', ''queen'', ''bishop'', ''knight'', ''rook'', ''pawn''] ! nat (idx mod 6)"
  by (cases idx rule: mod6_cases) (simp_all add: name_def)

lemma name_distinct: "distinct (map name [0..11])"
  by (simp add: name_def upto_rec1)

lemma tile_paths_distinct: "distinct (map (\<lambda>i. ''tiles/'' @ name i @ ''.png'') [0..11])"
  by (simp add: name_def upto_rec1)

lemma names_png:
  "(\<lambda>k. name k @ ''.png'') ` {0..<12} =
     (\<lambda>(c, p). c @ ''_'' @ p @ ''.png'') `
        ({''white'', ''black''} \<times> {''king'', ''queen'', ''bishop'', ''knight'', ''rook'', ''pawn''})"
proof -
  have "{0..<12::int} = set [0..11]" by auto
  then show ?thesis by (simp add: upto_rec1 name_def insert_commute)
qed

section \<open>One pass of the loop body\<close>

lemma split_path_tiles: "split_path (''tiles/'' @ f) = (Some ''tiles'', f)"
  by (simp add: split_path_def)

lemma image_save_tiles_ok:
  assumes "entries w ''tiles'' = Some (Dir m)" and "png_encodes tile"
  shows "image_save tile (''tiles/'' @ f) w =
           (None, w\<lparr>entries := (entries w)(''tiles'' \<mapsto> Dir (m(f \<mapsto> Picture tile))),
                    log := log w @ [Save (''tiles/'' @ f)]\<rparr>)"
  unfolding image_save_def split_path_tiles using assms by simp

lemma image_save_tiles_fail:
  assumes "entries w ''tiles'' = Some (Dir m)" and "\<not> png_encodes tile"
  shows "\<exists>w' m'. image_save tile (''tiles/'' @ f) w = (Some SaveError, w')
           \<and> entries w' = (entries w)(''tiles'' \<mapsto> Dir m') \<and> log w' = log w"
proof (cases "m f")
  case None
  have "image_save tile (''tiles/'' @ f) w = (Some SaveError, w)"
    unfolding image_save_def split_path_tiles using assms None by simp
  moreover have "entries w = (entries w)(''tiles'' \<mapsto> Dir m)"
    using assms(1) by (simp add: fun_upd_idem)
  ultimately show ?thesis by blast
next
  case (Some c)
  have "image_save tile (''tiles/'' @ f) w =
          (Some SaveError, w\<lparr>entries := (entries w)(''tiles'' \<mapsto> Dir (m(f \<mapsto> Unidentified)))\<rparr>)"
    unfolding image_save_def split_path_tiles using assms Some by simp
  moreover have "entries (w\<lparr>entries := (entries w)(''tiles'' \<mapsto> Dir (m(f \<mapsto> Unidentified)))\<rparr>)
      = (entries w)(''tiles'' \<mapsto> Dir (m(f \<mapsto> Unidentified)))" by simp
  moreover have "log (w\<lparr>entries := (entries w)(''tiles'' \<mapsto> Dir (m(f \<mapsto> Unidentified)))\<rparr>)
      = log w" by simp
  ultimately show ?thesis by blast
qed

lemma body_cases:
  assumes "entries w ''tiles'' = Some (Dir m)"
  obtains (crop_fails) "crop sheet (cell_box (x, y)) = None"
      "body crop sheet y x (i, w) = (Some CropError, i, w)"
    | (save_fails) tile w' m' where "crop sheet (cell_box (x, y)) = Some tile"
      "\<not> png_encodes tile"
      "body crop sheet y x (i, w) = (Some SaveError, i, w')"
      "entries w' = (entries w)(''tiles'' \<mapsto> Dir m')"
      "log w' = log w @ [Crop (cell_box (x, y))]"
    | (ok) tile where "crop sheet (cell_box (x, y)) = Some tile"
      "png_encodes tile"
      "body crop sheet y x (i, w) =
         (None, i + 1,
          w\<lparr>entries := (entries w)(''tiles'' \<mapsto> Dir (m(name i @ ''.png'' \<mapsto> Picture tile))),
            log := log w @ [Crop (cell_box (x, y)), Save (tile_path i)]\<rparr>)"
proof (cases "crop sheet (cell_box (x, y))")
  case None
  then have "body crop sheet y x (i, w) = (Some CropError, i, w)"
    by (simp add: body_def image_crop_def Let_def cell_box_def)
  with None show thesis by (rule crop_fails)
next
  case (Some tile)
  let ?w1 = "w\<lparr>log := log w @ [Crop (cell_box (x, y))]\<rparr>"
  have c: "image_crop crop sheet (x * l, y * l, x * l + l, y * l + l) w = Inr (tile, ?w1)"
    using Some by (simp add: image_crop_def cell_box_def)
  have t: "entries ?w1 ''tiles'' = Some (Dir m)" using assms by simp
  show thesis
  proof (cases "png_encodes tile")
    case True
    from image_save_tiles_ok [OF t True, of "name i @ ''.png''"]
    have "body crop sheet y x (i, w) =
           (None, i + 1,
            w\<lparr>entries := (entries w)(''tiles'' \<mapsto> Dir (m(name i @ ''.png'' \<mapsto> Picture tile))),
              log := log w @ [Crop (cell_box (x, y)), Save (tile_path i)]\<rparr>)"
      unfolding body_def Let_def prod.case c sum.case tile_path_def by simp
    with Some True show thesis by (rule ok)
  next
    case False
    from image_save_tiles_fail [OF t False, of "name i @ ''.png''"] obtain w' m' where
      sv: "image_save tile (''tiles/'' @ name i @ ''.png'') ?w1 = (Some SaveError, w')"
      and e: "entries w' = (entries ?w1)(''tiles'' \<mapsto> Dir m')"
      and lg: "log w' = log ?w1"
      by (elim exE conjE) (rule that)
    have "body crop sheet y x (i, w) = (Some SaveError, i, w')"
      unfolding body_def Let_def prod.case c sum.case sv by simp
    moreover have "entries w' = (entries w)(''tiles'' \<mapsto> Dir m')" using e by simp
    moreover have "log w' = log w @ [Crop (cell_box (x, y))]" using lg by simp
    ultimately show thesis using Some False save_fails by blast
  qed
qed

lemma body_post:
  assumes "entries w ''tiles'' = Some (Dir m)"
  shows "tiles_post [Crop (cell_box (x, y)), Save (tile_path i)] 1
           (i, w) (body crop sheet y x (i, w))"
  using assms
proof (cases rule: body_cases [where crop = crop and sheet = sheet and x = x and y = y and i = i])
  case crop_fails
  have e: "entries w = (entries w)(''tiles'' \<mapsto> Dir m)"
    using assms by (simp add: fun_upd_idem)
  show ?thesis unfolding tiles_post_def crop_fails(2)
    by (rule exI [of _ m], rule exI [of _ m], rule exI [of _ "[]"])
       (use assms e in simp)
next
  case (save_fails tile w' m')
  show ?thesis unfolding tiles_post_def save_fails(3)
    by (rule exI [of _ m], rule exI [of _ m'], rule exI [of _ "[Crop (cell_box (x, y))]"])
       (use assms save_fails(4,5) in simp)
next
  case (ok tile)
  have one: "{i..<i + 1} = {i}" by auto
  show ?thesis unfolding tiles_post_def ok(3)
    by (rule exI [of _ m], rule exI [of _ "m(name i @ ''.png'' \<mapsto> Picture tile)"],
        rule exI [of _ "[Crop (cell_box (x, y)), Save (tile_path i)]"])
       (use assms one in simp)
qed

section \<open>Composing stretches of the loops\<close>

lemma tiles_postE:
  assumes "tiles_post F n (i, w) (r, i', w')"
  obtains m m' evs where
    "entries w ''tiles'' = Some (Dir m)"
    "entries w' = (entries w)(''tiles'' \<mapsto> Dir m')"
    "log w' = log w @ evs"
    "prefix evs F"
    "r = None \<or> r = Some CropError \<or> r = Some SaveError"
    "r = None \<longrightarrow> evs = F \<and> i' = i + n
       \<and> dom m' = dom m \<union> (\<lambda>k. name k @ ''.png'') ` {i..<i + n}"
  using assms unfolding tiles_post_def fst_conv snd_conv
  by (elim exE conjE) (rule that)

lemma post_skip:
  assumes "entries (snd s) ''tiles'' = Some (Dir m)"
  shows "tiles_post [] 0 s (None, s)"
proof -
  have e: "entries (snd s) = (entries (snd s))(''tiles'' \<mapsto> Dir m)"
    using assms by (simp add: fun_upd_idem)
  show ?thesis unfolding tiles_post_def
    by (rule exI [of _ m], rule exI [of _ m], rule exI [of _ "[]"]) (use assms e in simp)
qed

lemma post_next:
  assumes "tiles_post F n s (None, s1)"
  shows "\<exists>m1. entries (snd s1) ''tiles'' = Some (Dir m1)" and "fst s1 = fst s + n"
  using assms unfolding tiles_post_def by auto

lemma post_fail:
  assumes "tiles_post F1 n1 s (Some e, s1)"
  shows "tiles_post (F1 @ F2) (n1 + n2) s (Some e, s1)"
proof -
  from assms obtain m m' evs where
    a: "entries (snd s) ''tiles'' = Some (Dir m)"
    and b: "entries (snd s1) = (entries (snd s))(''tiles'' \<mapsto> Dir m')"
    and c: "log (snd s1) = log (snd s) @ evs"
    and d: "prefix evs F1"
    and e: "e = CropError \<or> e = SaveError"
    unfolding tiles_post_def by auto
  have d': "prefix evs (F1 @ F2)" using d by (rule prefix_prefix)
  show ?thesis unfolding tiles_post_def
    by (rule exI [of _ m], rule exI [of _ m'], rule exI [of _ evs])
       (use a b c d' e in simp)
qed

lemma post_seq:
  assumes "tiles_post F1 n1 s (None, s1)"
    and "tiles_post F2 n2 s1 res"
    and "0 \<le> n1" and "0 \<le> n2"
  shows "tiles_post (F1 @ F2) (n1 + n2) s res"
proof -
  from assms(1) obtain m m1 where
    a1: "entries (snd s) ''tiles'' = Some (Dir m)"
    and b1: "entries (snd s1) = (entries (snd s))(''tiles'' \<mapsto> Dir m1)"
    and c1: "log (snd s1) = log (snd s) @ F1"
    and i1: "fst s1 = fst s + n1"
    and d1: "dom m1 = dom m \<union> (\<lambda>k. name k @ ''.png'') ` {fst s..<fst s + n1}"
    unfolding tiles_post_def by auto
  from assms(2) obtain m1' m' evs where
    a2: "entries (snd s1) ''tiles'' = Some (Dir m1')"
    and b2: "entries (snd (snd res)) = (entries (snd s1))(''tiles'' \<mapsto> Dir m')"
    and c2: "log (snd (snd res)) = log (snd s1) @ evs"
    and p2: "prefix evs F2"
    and r2: "fst res = None \<or> fst res = Some CropError \<or> fst res = Some SaveError"
    and d2: "fst res = None \<longrightarrow> evs = F2 \<and> fst (snd res) = fst s1 + n2
            \<and> dom m' = dom m1' \<union> (\<lambda>k. name k @ ''.png'') ` {fst s1..<fst s1 + n2}"
    unfolding tiles_post_def by (elim exE conjE) (rule that)
  have same: "m1' = m1" using a2 b1 by simp
  have b: "entries (snd (snd res)) = (entries (snd s))(''tiles'' \<mapsto> Dir m')"
    using b2 b1 by simp
  have c: "log (snd (snd res)) = log (snd s) @ (F1 @ evs)" using c2 c1 by simp
  have p: "prefix (F1 @ evs) (F1 @ F2)" using p2 by simp
  have ivl: "{fst s..<fst s + (n1 + n2)} = {fst s..<fst s + n1} \<union> {fst s + n1..<fst s + n1 + n2}"
    using assms(3,4) by auto
  have d: "fst res = None \<longrightarrow> F1 @ evs = F1 @ F2 \<and> fst (snd res) = fst s + (n1 + n2)
            \<and> dom m' = dom m \<union> (\<lambda>k. name k @ ''.png'') ` {fst s..<fst s + (n1 + n2)}"
    using d2 d1 i1 same ivl by (simp add: image_Un Un_assoc)
  show ?thesis unfolding tiles_post_def
    by (rule exI [of _ m], rule exI [of _ m'], rule exI [of _ "F1 @ evs"])
       (use a1 b c p r2 d in simp)
qed

section \<open>The two loops\<close>

lemma for_x_post:
  assumes "entries w ''tiles'' = Some (Dir m)"
  shows "tiles_post (tile_events y xs i) (int (length xs))
           (i, w) (for_x crop sheet y xs (i, w))"
  using assms
proof (induction xs arbitrary: i w m)
  case Nil
  then show ?case using post_skip [of "(i, w)" m] by simp
next
  case (Cons x xs)
  let ?F1 = "[Crop (cell_box (x, y)), Save (tile_path i)]"
  have b: "tiles_post ?F1 1 (i, w) (body crop sheet y x (i, w))"
    using Cons.prems by (rule body_post)
  obtain r i1 w1 where res: "body crop sheet y x (i, w) = (r, i1, w1)"
    by (cases "body crop sheet y x (i, w)") auto
  have n: "int (length (x # xs)) = 1 + int (length xs)" by simp
  show ?case
  proof (cases r)
    case (Some e)
    with b res have b': "tiles_post ?F1 1 (i, w) (Some e, i1, w1)" by simp
    have F: "tile_events y (x # xs) i = ?F1 @ tile_events y xs (i + 1)" by simp
    have run: "for_x crop sheet y (x # xs) (i, w) = (Some e, i1, w1)"
      using res Some by simp
    from post_fail [OF b', of "tile_events y xs (i + 1)" "int (length xs)"]
    show ?thesis unfolding n F run .
  next
    case None
    with b res have b': "tiles_post ?F1 1 (i, w) (None, i1, w1)" by simp
    from post_next [OF b'] obtain m1 where
      e1: "entries w1 ''tiles'' = Some (Dir m1)" and i1: "i1 = i + 1" by auto
    have F: "tile_events y (x # xs) i = ?F1 @ tile_events y xs i1" using i1 by simp
    have run: "for_x crop sheet y (x # xs) (i, w) = for_x crop sheet y xs (i1, w1)"
      using res None by simp
    from post_seq [OF b' Cons.IH [OF e1, of i1]]
    show ?thesis unfolding n F run by simp
  qed
qed

lemma for_y_post:
  assumes "entries w ''tiles'' = Some (Dir m)"
  shows "tiles_post (grid_events ys i) (6 * int (length ys))
           (i, w) (for_y crop sheet ys (i, w))"
  using assms
proof (induction ys arbitrary: i w m)
  case Nil
  then show ?case using post_skip [of "(i, w)" m] by simp
next
  case (Cons y ys)
  let ?F1 = "tile_events y (range_int 6) i"
  have b: "tiles_post ?F1 6 (i, w) (for_x crop sheet y (range_int 6) (i, w))"
    using for_x_post [OF Cons.prems, of y "range_int 6" i crop sheet]
    by (simp add: range_int_def)
  obtain r i1 w1 where res: "for_x crop sheet y (range_int 6) (i, w) = (r, i1, w1)"
    by (cases "for_x crop sheet y (range_int 6) (i, w)") auto
  have n: "6 * int (length (y # ys)) = 6 + 6 * int (length ys)" by simp
  have F: "grid_events (y # ys) i = ?F1 @ grid_events ys (i + 6)" by simp
  show ?case
  proof (cases r)
    case (Some e)
    with b res have b': "tiles_post ?F1 6 (i, w) (Some e, i1, w1)" by simp
    have run: "for_y crop sheet (y # ys) (i, w) = (Some e, i1, w1)"
      using res Some by simp
    from post_fail [OF b', of "grid_events ys (i + 6)" "6 * int (length ys)"]
    show ?thesis unfolding n F run .
  next
    case None
    with b res have b': "tiles_post ?F1 6 (i, w) (None, i1, w1)" by simp
    from post_next [OF b'] obtain m1 where
      e1: "entries w1 ''tiles'' = Some (Dir m1)" and i1: "i1 = i + 6" by auto
    have run: "for_y crop sheet (y # ys) (i, w) = for_y crop sheet ys (i1, w1)"
      using res None by simp
    from post_seq [OF b' Cons.IH [OF e1, of i1]]
    show ?thesis unfolding n F run i1 by simp
  qed
qed

section \<open>The three ways a run can go\<close>

text \<open>
  Either \<open>tiles\<close> is taken and \<open>mkdir\<close> raises, or the sheet cannot be opened, or the
  loops run.
\<close>

lemma mkdir_tiles:
  "mkdir ''tiles/'' w =
     (case entries w ''tiles'' of
        Some n \<Rightarrow> Inl FileExistsError
      | None \<Rightarrow> Inr (w\<lparr>entries := (entries w)(''tiles'' \<mapsto> Dir Map.empty),
                        log := log w @ [Mkdir ''tiles/'']\<rparr>))"
  by (simp add: mkdir_def dir_key_def split: option.splits)

lemma image_open_sprites:
  "image_open ''sprites.png'' w =
     (case entries w ''sprites.png'' of
        None \<Rightarrow> Inl FileNotFoundError
      | Some (Dir m) \<Rightarrow> Inl IsADirectoryError
      | Some (File Unidentified) \<Rightarrow> Inl UnidentifiedImageError
      | Some (File (Picture img)) \<Rightarrow> Inr (img, w\<lparr>log := log w @ [Open ''sprites.png'']\<rparr>))"
  by (simp add: image_open_def lookup_file_def split_path_def
           split: option.splits node.splits content.splits)

lemma run_dir_exists:
  assumes "entries w ''tiles'' = Some n"
  shows "sprite_into_tiles crop w = (Some FileExistsError, w)"
  using assms by (simp add: sprite_into_tiles_def mkdir_tiles)

lemma run_open_fails:
  assumes "entries w ''tiles'' = None" and "image_open ''sprites.png'' w = Inl e"
  shows "sprite_into_tiles crop w =
           (Some e, w\<lparr>entries := (entries w)(''tiles'' \<mapsto> Dir Map.empty),
                      log := log w @ [Mkdir ''tiles/'']\<rparr>)"
proof -
  let ?w1 = "w\<lparr>entries := (entries w)(''tiles'' \<mapsto> Dir Map.empty),
              log := log w @ [Mkdir ''tiles/'']\<rparr>"
  have "image_open ''sprites.png'' ?w1 = Inl e"
    using assms(2) unfolding image_open_sprites
    by (simp split: option.splits node.splits content.splits)
  then show ?thesis using assms(1) by (simp add: sprite_into_tiles_def mkdir_tiles)
qed

lemma run_loop:
  assumes "entries w ''tiles'' = None"
    and "entries w ''sprites.png'' = Some (File (Picture sheet))"
  shows "\<exists>i'. tiles_post (grid_events (range_int 2) 0) 12
           (0, w\<lparr>entries := (entries w)(''tiles'' \<mapsto> Dir Map.empty),
                 log := log w @ [Mkdir ''tiles/'', Open ''sprites.png'']\<rparr>)
           (fst (sprite_into_tiles crop w), i', snd (sprite_into_tiles crop w))"
proof -
  let ?w1 = "w\<lparr>entries := (entries w)(''tiles'' \<mapsto> Dir Map.empty),
              log := log w @ [Mkdir ''tiles/'']\<rparr>"
  let ?w2 = "w\<lparr>entries := (entries w)(''tiles'' \<mapsto> Dir Map.empty),
              log := log w @ [Mkdir ''tiles/'', Open ''sprites.png'']\<rparr>"
  have mk: "mkdir ''tiles/'' w = Inr ?w1" using assms(1) by (simp add: mkdir_tiles)
  have op: "image_open ''sprites.png'' ?w1 = Inr (sheet, ?w2)"
    using assms(2) by (simp add: image_open_sprites)
  obtain r i' w' where res: "for_y crop sheet (range_int 2) (0, ?w2) = (r, i', w')"
    by (cases "for_y crop sheet (range_int 2) (0, ?w2)") auto
  have run: "sprite_into_tiles crop w = (r, w')"
    unfolding sprite_into_tiles_def mk sum.case op prod.case Let_def res ..
  have "entries ?w2 ''tiles'' = Some (Dir Map.empty)" by simp
  from for_y_post [OF this, of "range_int 2" 0 crop sheet]
  have "tiles_post (grid_events (range_int 2) 0) 12 (0, ?w2) (r, i', w')"
    unfolding res by (simp add: range_int_def)
  then show ?thesis unfolding run by auto
qed

lemma run_complete:
  assumes "fst (sprite_into_tiles crop w) = None"
  shows "entries w ''tiles'' = None
       \<and> (\<exists>sheet. entries w ''sprites.png'' = Some (File (Picture sheet)))
       \<and> (\<exists>m'. entries (snd (sprite_into_tiles crop w)) = (entries w)(''tiles'' \<mapsto> Dir m')
               \<and> dom m' = (\<lambda>k. name k @ ''.png'') ` {0..<12})
       \<and> log (snd (sprite_into_tiles crop w)) =
           log w @ Mkdir ''tiles/'' # Open ''sprites.png'' # grid_events (range_int 2) 0"
proof -
  have t: "entries w ''tiles'' = None"
  proof (cases "entries w ''tiles''")
    case (Some n)
    from run_dir_exists [OF this, of crop] assms show ?thesis by simp
  qed simp
  have "\<exists>sheet. entries w ''sprites.png'' = Some (File (Picture sheet))"
  proof (cases "image_open ''sprites.png'' w")
    case (Inl e)
    from run_open_fails [OF t this, of crop] assms show ?thesis by simp
  next
    case (Inr p)
    then show ?thesis unfolding image_open_sprites
      by (auto split: option.splits node.splits content.splits)
  qed
  then obtain sheet where s: "entries w ''sprites.png'' = Some (File (Picture sheet))" ..
  from run_loop [OF t s, of crop] assms t s show ?thesis
    unfolding tiles_post_def by auto
qed

lemma run_tiles_present: "entries (snd (sprite_into_tiles crop w)) ''tiles'' \<noteq> None"
proof (cases "entries w ''tiles''")
  case (Some n)
  then show ?thesis by (simp add: run_dir_exists)
next
  case None
  show ?thesis
  proof (cases "image_open ''sprites.png'' w")
    case (Inl e)
    from run_open_fails [OF None this, of crop] show ?thesis by simp
  next
    case (Inr p)
    then obtain sheet where s: "entries w ''sprites.png'' = Some (File (Picture sheet))"
      unfolding image_open_sprites by (auto split: option.splits node.splits content.splits)
    from run_loop [OF None s, of crop] show ?thesis
      unfolding tiles_post_def by auto
  qed
qed

lemma run_no_exists_error:
  assumes "entries w ''tiles'' = None"
  shows "fst (sprite_into_tiles crop w) \<noteq> Some FileExistsError"
proof (cases "image_open ''sprites.png'' w")
  case (Inl e)
  then have "e \<noteq> FileExistsError" unfolding image_open_sprites
    by (auto split: option.splits node.splits content.splits)
  with run_open_fails [OF assms Inl, of crop] show ?thesis by simp
next
  case (Inr p)
  then obtain sheet where s: "entries w ''sprites.png'' = Some (File (Picture sheet))"
    unfolding image_open_sprites by (auto split: option.splits node.splits content.splits)
  from run_loop [OF assms s, of crop] show ?thesis
    unfolding tiles_post_def by auto
qed

section \<open>The events of a run\<close>

lemma grid_events_all:
  "grid_events (range_int 2) 0 =
     concat (map (\<lambda>i. [Crop (i mod 6 * 213, i div 6 * 213, i mod 6 * 213 + 213, i div 6 * 213 + 213),
                        Save (''tiles/'' @ name i @ ''.png'')]) [0..11])"
  by (simp add: range_int_def upto_rec1 l_def cell_box_def tile_path_def)

lemma saves_append: "saves (xs @ ys) = saves xs @ saves ys"
  by (induction xs rule: saves.induct) simp_all

lemma saves_grid:
  "saves (grid_events (range_int 2) 0) = map (\<lambda>i. ''tiles/'' @ name i @ ''.png'') [0..11]"
  by (simp add: grid_events_all upto_rec1)

lemma crops_grid:
  "crops (grid_events (range_int 2) 0) =
     map (\<lambda>i. (i mod 6 * 213, i div 6 * 213, i mod 6 * 213 + 213, i div 6 * 213 + 213)) [0..11]"
  by (simp add: grid_events_all upto_rec1)

lemma events_complete:
  assumes "fst (sprite_into_tiles crop w) = None"
  shows "events_of crop w = Mkdir ''tiles/'' # Open ''sprites.png'' # grid_events (range_int 2) 0"
  using run_complete [OF assms] by (simp add: events_of_def)

lemma events_prefix:
  "prefix (events_of crop w) (Mkdir ''tiles/'' # Open ''sprites.png'' # grid_events (range_int 2) 0)"
proof (cases "entries w ''tiles''")
  case (Some n)
  then show ?thesis by (simp add: events_of_def run_dir_exists)
next
  case None
  show ?thesis
  proof (cases "image_open ''sprites.png'' w")
    case (Inl e)
    from run_open_fails [OF None this, of crop] show ?thesis by (simp add: events_of_def)
  next
    case (Inr p)
    then obtain sheet where s: "entries w ''sprites.png'' = Some (File (Picture sheet))"
      unfolding image_open_sprites by (auto split: option.splits node.splits content.splits)
    from run_loop [OF None s, of crop] show ?thesis
      unfolding tiles_post_def by (auto simp: events_of_def)
  qed
qed

section \<open>The geometry of the cells\<close>

lemma region_cells_disjoint:
  fixes a b :: int
  assumes "a \<noteq> b"
  shows "region (a mod 6 * 213, a div 6 * 213, a mod 6 * 213 + 213, a div 6 * 213 + 213)
       \<inter> region (b mod 6 * 213, b div 6 * 213, b mod 6 * 213 + 213, b div 6 * 213 + 213) = {}"
proof (rule ccontr)
  assume "\<not> ?thesis"
  then obtain px py where
    "a mod 6 * 213 \<le> px" "px < a mod 6 * 213 + 213" "b mod 6 * 213 \<le> px" "px < b mod 6 * 213 + 213"
    "a div 6 * 213 \<le> py" "py < a div 6 * 213 + 213" "b div 6 * 213 \<le> py" "py < b div 6 * 213 + 213"
    by (auto simp: region_def)
  then have "a mod 6 = b mod 6" and "a div 6 = b div 6" by linarith+
  then have "a = b" by (metis div_mult_mod_eq)
  with assms show False by contradiction
qed

lemma region_cells_union:
  "(\<Union>i\<in>{0..11::int}. region (i mod 6 * 213, i div 6 * 213, i mod 6 * 213 + 213, i div 6 * 213 + 213))
     = {0..<1278} \<times> {0..<426}"
proof (intro set_eqI iffI)
  fix p :: "int \<times> int"
  obtain px py where p: "p = (px, py)" by (cases p)
  { assume "p \<in> (\<Union>i\<in>{0..11::int}. region (i mod 6 * 213, i div 6 * 213, i mod 6 * 213 + 213, i div 6 * 213 + 213))"
    then obtain i :: int where i: "0 \<le> i" "i \<le> 11"
      and x: "i mod 6 * 213 \<le> px" "px < i mod 6 * 213 + 213"
      and y: "i div 6 * 213 \<le> py" "py < i div 6 * 213 + 213"
      by (auto simp: region_def p)
    have "0 \<le> i mod 6" "i mod 6 < 6" by simp_all
    with x have px: "0 \<le> px" "px < 1278" by linarith+
    have "0 \<le> i div 6" "i div 6 < 2" using i by simp_all
    with y have py: "0 \<le> py" "py < 426" by linarith+
    from px py show "p \<in> {0..<1278} \<times> {0..<426}" by (simp add: p) }
  { assume "p \<in> {0..<1278::int} \<times> {0..<426::int}"
    then have b: "0 \<le> px" "px < 1278" "0 \<le> py" "py < 426" by (simp_all add: p)
    let ?i = "py div 213 * 6 + px div 213"
    have c: "0 \<le> px div 213" "px div 213 < 6" "0 \<le> py div 213" "py div 213 < 2"
      using b by simp_all
    then have m: "?i mod 6 = px div 213" and d: "?i div 6 = py div 213" by simp_all
    have "0 \<le> ?i" "?i \<le> 11" using c by linarith+
    moreover have "px div 213 * 213 \<le> px" "px < px div 213 * 213 + 213"
       "py div 213 * 213 \<le> py" "py < py div 213 * 213 + 213"
      by simp_all ((simp add: algebra_simps div_mult_mod_eq)?)
    ultimately
    show "p \<in> (\<Union>i\<in>{0..11::int}. region (i mod 6 * 213, i div 6 * 213, i mod 6 * 213 + 213, i div 6 * 213 + 213))"
      unfolding p region_def using m d
      by (intro UN_I [of ?i]) simp_all }
qed

section \<open>Pillow's crop and the example worlds\<close>










lemma example_world_complete: "fst (sprite_into_tiles pil_crop example_world) = None"
  by (simp add: sprite_into_tiles_def example_world_def mkdir_def dir_key_def image_open_def
        lookup_file_def split_path_def range_int_def upto_rec1 body_def image_crop_def
        pil_crop_def pil_region_def c_int_def png_encodes_def png_mode_def example_sheet_def
        l_def image_save_def)

section \<open>The stated properties\<close>

subsection \<open>Names\<close>

text \<open>
  C1. For every index \<open>i\<close> from 0 to 11, \<open>name i\<close> is the colour, an underscore and the
  piece: the colour is white for 0 to 5 and black for 6 to 11, and the piece is picked by
  \<open>i mod 6\<close> in the order king, queen, bishop, knight, rook, pawn. In particular
  \<open>name 0\<close> is white_king, \<open>name 5\<close> white_pawn, \<open>name 6\<close> black_king and \<open>name 11\<close>
  black_pawn.
\<close>

theorem name_table:
  "(0 \<le> i \<and> i \<le> 11 \<longrightarrow>
      name i = (if i \<le> 5 then ''white'' else ''black'') @ ''_'' @
        [''king'', ''queen'', ''bishop'', ''knight'', ''rook'', ''pawn''] ! nat (i mod 6))
   \<and> name 0 = ''white_king'' \<and> name 5 = ''white_pawn''
   \<and> name 6 = ''black_king'' \<and> name 11 = ''black_pawn''"
proof -
  have "name 0 = ''white_king''" "name 5 = ''white_pawn''"
       "name 6 = ''black_king''" "name 11 = ''black_pawn''"
    by (simp_all add: name_def)
  moreover have "i \<le> 5 \<longleftrightarrow> i < 6" by arith
  ultimately show ?thesis by (simp add: name_eq)
qed

text \<open>C1 at index 7, the second tile of the black row.\<close>

theorem name_table_witness:
  "(0::int) \<le> 7 \<and> (7::int) \<le> 11 \<and> name 7 = ''black_queen''"
  using name_table [of 7] by simp

text \<open>
  C9. \<open>name\<close> returns a name for every integer, not only for 0 to 11: the colour, an
  underscore and one of the six pieces, never the empty piece, since the remainder by 6
  always lies between 0 and 5. The colour is white for every index below 6, the
  negative ones included, and black from 6 on; \<open>name (- 1)\<close> is white_pawn and
  \<open>name 12\<close> is black_king.
\<close>

theorem name_total:
  "name idx = (if idx < 6 then ''white'' else ''black'') @ ''_'' @
      [''king'', ''queen'', ''bishop'', ''knight'', ''rook'', ''pawn''] ! nat (idx mod 6)
   \<and> nat (idx mod 6) < 6
   \<and> [''king'', ''queen'', ''bishop'', ''knight'', ''rook'', ''pawn''] ! nat (idx mod 6) \<noteq> ''''
   \<and> name (- 1) = ''white_pawn'' \<and> name 12 = ''black_king''"
proof -
  have "nat (idx mod 6) < 6" by simp
  moreover have
    "[''king'', ''queen'', ''bishop'', ''knight'', ''rook'', ''pawn''] ! nat (idx mod 6) \<noteq> ''''"
    by (cases idx rule: mod6_cases) simp_all
  moreover have "name (- 1) = ''white_pawn''" "name 12 = ''black_king''"
    by (simp_all add: name_def)
  ultimately show ?thesis using name_eq [of idx] by simp
qed

text \<open>C9 at a negative index and at an index far beyond the grid.\<close>

theorem name_total_witness:
  "name (- 13) = ''white_pawn'' \<and> name 100 = ''black_rook''"
  using name_total [of "- 13"] name_total [of 100] by simp

text \<open>
  C5, as far as it holds. The piece part of \<open>name i\<close> and of \<open>name (i + 6)\<close> is the same
  for every \<open>i\<close> (both colours have five letters, so the piece starts at position 6). The
  colour goes from white to black only for \<open>i\<close> from 0 to 5; for \<open>i\<close> from 6 to 11 both
  names are black and equal.
\<close>

theorem name_shift:
  "(0 \<le> i \<and> i \<le> 5 \<longrightarrow> take 6 (name i) = ''white_'' \<and> take 6 (name (i + 6)) = ''black_'')
   \<and> (6 \<le> i \<and> i \<le> 11 \<longrightarrow> name (i + 6) = name i \<and> take 6 (name i) = ''black_'')
   \<and> drop 6 (name (i + 6)) = drop 6 (name i)"
  by (simp add: name_eq)

text \<open>C5 as amended, at index 3 of the white row and index 8 of the black row.\<close>

theorem name_shift_witness:
  "(0::int) \<le> 3 \<and> (3::int) \<le> 5 \<and> name 3 = ''white_knight'' \<and> name (3 + 6) = ''black_knight''
   \<and> (6::int) \<le> 8 \<and> (8::int) \<le> 11 \<and> name (8 + 6) = name 8"
  using name_shift [of 3] name_shift [of 8] by (simp add: name_def)

text \<open>
  C5 as stated fails at index 6: \<open>name 6\<close> and \<open>name 12\<close> are the same string, so the
  colour is not swapped from white to black.
\<close>

theorem name_shift_counterexample:
  "name 6 = ''black_king'' \<and> name (6 + 6) = ''black_king''
   \<and> \<not> (take 5 (name 6) = ''white'' \<and> take 5 (name (6 + 6)) = ''black'')"
  by (simp add: name_def)

subsection \<open>A run that completes\<close>

text \<open>
  C2. A run that completes has created the directory \<open>tiles/\<close>, which was not there
  before, and leaves in it exactly the twelve files colour_piece.png, one for each of the
  two colours and six pieces; nothing else in the working directory changes. It writes
  twelve paths, no path twice, and they are those twelve files.
\<close>

theorem complete_run_writes_twelve_tiles:
  assumes "fst (sprite_into_tiles crop w) = None"
  shows "entries w ''tiles'' = None
       \<and> (\<exists>m. entries (snd (sprite_into_tiles crop w)) = (entries w)(''tiles'' \<mapsto> Dir m)
             \<and> dom m = (\<lambda>(c, p). c @ ''_'' @ p @ ''.png'') `
                  ({''white'', ''black''}
                     \<times> {''king'', ''queen'', ''bishop'', ''knight'', ''rook'', ''pawn''}))
       \<and> length (saves (events_of crop w)) = 12
       \<and> distinct (saves (events_of crop w))
       \<and> set (saves (events_of crop w)) = (\<lambda>(c, p). ''tiles/'' @ c @ ''_'' @ p @ ''.png'') `
                  ({''white'', ''black''}
                     \<times> {''king'', ''queen'', ''bishop'', ''knight'', ''rook'', ''pawn''})"
proof -
  have s: "saves (events_of crop w) = map (\<lambda>i. ''tiles/'' @ name i @ ''.png'') [0..11]"
    by (simp add: events_complete [OF assms] saves_grid)
  have 1: "length (saves (events_of crop w)) = 12" unfolding s by simp
  have 2: "distinct (saves (events_of crop w))" unfolding s by (rule tile_paths_distinct)
  have "set (saves (events_of crop w)) = (\<lambda>f. ''tiles/'' @ f) ` (\<lambda>k. name k @ ''.png'') ` {0..<12}"
    unfolding s by (auto simp: image_image)
  then have 3: "set (saves (events_of crop w)) = (\<lambda>(c, p). ''tiles/'' @ c @ ''_'' @ p @ ''.png'') `
                  ({''white'', ''black''}
                     \<times> {''king'', ''queen'', ''bishop'', ''knight'', ''rook'', ''pawn''})"
    unfolding names_png by (simp add: image_image split_def)
  from run_complete [OF assms] 1 2 3 show ?thesis unfolding names_png by simp
qed

text \<open>C2 on the example world, where Pillow's crop is used and the run completes.\<close>

theorem complete_run_writes_twelve_tiles_witness:
  "fst (sprite_into_tiles pil_crop example_world) = None
   \<and> entries example_world ''tiles'' = None
   \<and> length (saves (events_of pil_crop example_world)) = 12
   \<and> distinct (saves (events_of pil_crop example_world))"
  using complete_run_writes_twelve_tiles [OF example_world_complete] example_world_complete
  by simp

text \<open>
  C3. In a run that completes, the boxes are cropped in the order of the index \<open>i\<close> from
  0 to 11, row 0 with its columns 0 to 5 first and then row 1; the box for index \<open>i\<close> is
  the square of side 213 whose upper left corner is column times 213, row times 213,
  with row \<open>i div 6\<close> and column \<open>i mod 6\<close>, and it is saved under \<open>name i\<close>.
\<close>

theorem crop_rectangles_row_major:
  assumes "fst (sprite_into_tiles crop w) = None"
  shows "events_of crop w =
           Mkdir ''tiles/'' # Open ''sprites.png'' #
           concat (map (\<lambda>i. [Crop (i mod 6 * 213, i div 6 * 213,
                                    i mod 6 * 213 + 213, i div 6 * 213 + 213),
                              Save (''tiles/'' @ name i @ ''.png'')]) [0..11])"
  by (simp only: events_complete [OF assms] grid_events_all)

text \<open>C3 on the example world: the first events of the run.\<close>

theorem crop_rectangles_row_major_witness:
  "fst (sprite_into_tiles pil_crop example_world) = None
   \<and> take 6 (events_of pil_crop example_world) =
       [Mkdir ''tiles/'', Open ''sprites.png'',
        Crop (0, 0, 213, 213), Save ''tiles/white_king.png'',
        Crop (213, 0, 426, 213), Save ''tiles/white_queen.png'']"
  using crop_rectangles_row_major [OF example_world_complete] example_world_complete
  by (simp add: upto_rec1 name_def)

text \<open>
  C4. The twelve boxes cropped in a run that completes are each 213 by 213, no two of
  them share a pixel, and together they cover exactly the pixels of the 1278 by 426
  rectangle whose upper left corner is the origin.
\<close>

theorem crop_rectangles_tile_sheet:
  assumes "fst (sprite_into_tiles crop w) = None"
  shows "length (crops (events_of crop w)) = 12
       \<and> (\<forall>(x0, y0, x1, y1) \<in> set (crops (events_of crop w)). x1 - x0 = 213 \<and> y1 - y0 = 213)
       \<and> (\<forall>i<12. \<forall>j<12. i \<noteq> j \<longrightarrow>
             region (crops (events_of crop w) ! i) \<inter> region (crops (events_of crop w) ! j) = {})
       \<and> (\<Union>b\<in>set (crops (events_of crop w)). region b) = {0..<1278} \<times> {0..<426}"
proof -
  let ?f = "\<lambda>i::int. (i mod 6 * 213, i div 6 * 213, i mod 6 * 213 + 213, i div 6 * 213 + 213)"
  have c: "crops (events_of crop w) = map ?f [0..11]"
    by (simp only: events_complete [OF assms] crops.simps crops_grid)
  have 1: "length (crops (events_of crop w)) = 12" unfolding c by simp
  have 2: "\<forall>(x0, y0, x1, y1) \<in> set (crops (events_of crop w)). x1 - x0 = 213 \<and> y1 - y0 = 213"
    unfolding c by auto
  have nth: "crops (events_of crop w) ! i = ?f (int i)" if "i < 12" for i
    unfolding c using that by (simp add: nth_map)
  have 3: "\<forall>i<12. \<forall>j<12. i \<noteq> j \<longrightarrow>
             region (crops (events_of crop w) ! i) \<inter> region (crops (events_of crop w) ! j) = {}"
  proof (intro allI impI)
    fix i j :: nat assume "i < 12" "j < 12" "i \<noteq> j"
    then have "int i \<noteq> int j" by simp
    from region_cells_disjoint [OF this] nth [OF \<open>i < 12\<close>] nth [OF \<open>j < 12\<close>]
    show "region (crops (events_of crop w) ! i) \<inter> region (crops (events_of crop w) ! j) = {}"
      by simp
  qed
  have "set (crops (events_of crop w)) = ?f ` {0..11}" unfolding c by simp
  then have 4: "(\<Union>b\<in>set (crops (events_of crop w)). region b) = {0..<1278} \<times> {0..<426}"
    using region_cells_union by simp
  from 1 2 3 4 show ?thesis by blast
qed

text \<open>
  C4 on the example world; the first box and the eighth, one of each row, are disjoint.
\<close>

theorem crop_rectangles_tile_sheet_witness:
  "fst (sprite_into_tiles pil_crop example_world) = None
   \<and> length (crops (events_of pil_crop example_world)) = 12
   \<and> (0::nat) < 12 \<and> (7::nat) < 12 \<and> (0::nat) \<noteq> 7
   \<and> region (crops (events_of pil_crop example_world) ! 0)
        \<inter> region (crops (events_of pil_crop example_world) ! 7) = {}
   \<and> (\<Union>b\<in>set (crops (events_of pil_crop example_world)). region b) = {0..<1278} \<times> {0..<426}"
proof -
  note t = crop_rectangles_tile_sheet [OF example_world_complete]
  from t have "\<forall>i<12. \<forall>j<12. i \<noteq> j \<longrightarrow>
      region (crops (events_of pil_crop example_world) ! i)
        \<inter> region (crops (events_of pil_crop example_world) ! j) = {}"
    by (elim conjE)
  then have "region (crops (events_of pil_crop example_world) ! 0)
        \<inter> region (crops (events_of pil_crop example_world) ! 7) = {}"
    by simp
  with t example_world_complete show ?thesis by simp
qed

text \<open>
  C8. \<open>name\<close> is injective on the indices 0 to 11. The paths written in one run are
  pairwise distinct, whether the run completes or not, so no write replaces a file of
  the same run; a run that completes writes the twelve paths of the indices 0 to 11.
\<close>

theorem tile_names_distinct:
  "inj_on name {0..11}
   \<and> distinct (saves (events_of crop w))
   \<and> (fst (sprite_into_tiles crop w) = None \<longrightarrow>
        saves (events_of crop w) = map (\<lambda>i. ''tiles/'' @ name i @ ''.png'') [0..11])"
proof -
  have 1: "inj_on name {0..11}" using name_distinct by (simp add: distinct_map)
  from events_prefix [of crop w] obtain zs where
    "Mkdir ''tiles/'' # Open ''sprites.png'' # grid_events (range_int 2) 0 = events_of crop w @ zs"
    by (auto simp: prefix_def)
  then have "saves (Mkdir ''tiles/'' # Open ''sprites.png'' # grid_events (range_int 2) 0)
      = saves (events_of crop w) @ saves zs"
    by (simp only: saves_append)
  then have "map (\<lambda>i. ''tiles/'' @ name i @ ''.png'') [0..11]
      = saves (events_of crop w) @ saves zs"
    by (simp add: saves_grid)
  with tile_paths_distinct have 2: "distinct (saves (events_of crop w))"
    by (metis distinct_append)
  have 3: "fst (sprite_into_tiles crop w) = None \<longrightarrow>
        saves (events_of crop w) = map (\<lambda>i. ''tiles/'' @ name i @ ''.png'') [0..11]"
    by (auto simp: events_complete saves_grid)
  from 1 2 3 show ?thesis by blast
qed

text \<open>C8 on the example world, whose run completes.\<close>

theorem tile_names_distinct_witness:
  "fst (sprite_into_tiles pil_crop example_world) = None
   \<and> saves (events_of pil_crop example_world) = map (\<lambda>i. ''tiles/'' @ name i @ ''.png'') [0..11]
   \<and> distinct (saves (events_of pil_crop example_world))"
proof -
  note t = tile_names_distinct [of pil_crop example_world]
  from t have a: "distinct (saves (events_of pil_crop example_world))"
    by (elim conjE)
  from t have b: "fst (sprite_into_tiles pil_crop example_world) = None \<longrightarrow>
        saves (events_of pil_crop example_world) = map (\<lambda>i. ''tiles/'' @ name i @ ''.png'') [0..11]"
    by (elim conjE)
  from b example_world_complete
  have c: "saves (events_of pil_crop example_world) = map (\<lambda>i. ''tiles/'' @ name i @ ''.png'') [0..11]"
    by (rule mp)
  from example_world_complete c a show ?thesis by (intro conjI)
qed

subsection \<open>Runs that fail\<close>

text \<open>
  C7. If the directory \<open>tiles/\<close> is there when the run starts, the run fails with
  \<open>FileExistsError\<close> and leaves the world as it was, log included: no image was opened
  and no tile written. Hence a second run right after any first run fails with
  \<open>FileExistsError\<close>, and it does not fail so once the directory has been removed in
  between.
\<close>

theorem existing_directory_fails_first:
  "(entries w ''tiles'' = Some (Dir m) \<longrightarrow>
      sprite_into_tiles crop w = (Some FileExistsError, w))
   \<and> fst (sprite_into_tiles crop' (snd (sprite_into_tiles crop w))) = Some FileExistsError
   \<and> fst (sprite_into_tiles crop'
        ((snd (sprite_into_tiles crop w))
           \<lparr>entries := (entries (snd (sprite_into_tiles crop w)))(''tiles'' := None)\<rparr>))
       \<noteq> Some FileExistsError"
proof -
  obtain n where "entries (snd (sprite_into_tiles crop w)) ''tiles'' = Some n"
    using run_tiles_present [of crop w] by auto
  then have 2: "fst (sprite_into_tiles crop' (snd (sprite_into_tiles crop w))) = Some FileExistsError"
    by (simp add: run_dir_exists)
  have 3: "fst (sprite_into_tiles crop'
        ((snd (sprite_into_tiles crop w))
           \<lparr>entries := (entries (snd (sprite_into_tiles crop w)))(''tiles'' := None)\<rparr>))
       \<noteq> Some FileExistsError"
    by (rule run_no_exists_error) simp
  from 2 3 show ?thesis by (simp add: run_dir_exists)
qed

text \<open>
  C7 on a world where \<open>tiles/\<close> is already there, and on the example world run twice.
\<close>

theorem existing_directory_fails_first_witness:
  "entries occupied_world ''tiles'' = Some (Dir Map.empty)
   \<and> sprite_into_tiles pil_crop occupied_world = (Some FileExistsError, occupied_world)
   \<and> fst (sprite_into_tiles pil_crop (snd (sprite_into_tiles pil_crop example_world)))
       = Some FileExistsError"
proof -
  have a: "entries occupied_world ''tiles'' = Some (Dir Map.empty)"
    by (simp add: occupied_world_def)
  from existing_directory_fails_first [of occupied_world Map.empty pil_crop pil_crop] a
  have b: "sprite_into_tiles pil_crop occupied_world = (Some FileExistsError, occupied_world)"
    by (elim conjE impE)
  from existing_directory_fails_first [of example_world Map.empty pil_crop pil_crop]
  have c: "fst (sprite_into_tiles pil_crop (snd (sprite_into_tiles pil_crop example_world)))
       = Some FileExistsError"
    by (elim conjE)
  from a b c show ?thesis by (intro conjI)
qed

text \<open>
  C10. The directory is created before the sheet is opened: when \<open>tiles/\<close> is free and
  \<open>sprites.png\<close> is not an image that can be opened, the run ends with the exception of
  \<open>Image.open\<close> (\<open>FileNotFoundError\<close> when the file is missing) in a world that differs
  from the initial one by a new, empty directory \<open>tiles/\<close>.
\<close>

theorem directory_created_before_open:
  assumes "entries w ''tiles'' = None"
    and "\<forall>img. entries w ''sprites.png'' \<noteq> Some (File (Picture img))"
  shows "snd (sprite_into_tiles crop w) =
           w\<lparr>entries := (entries w)(''tiles'' \<mapsto> Dir Map.empty),
             log := log w @ [Mkdir ''tiles/'']\<rparr>
       \<and> fst (sprite_into_tiles crop w) \<in>
           {Some FileNotFoundError, Some IsADirectoryError, Some UnidentifiedImageError}
       \<and> (entries w ''sprites.png'' = None \<longrightarrow>
             fst (sprite_into_tiles crop w) = Some FileNotFoundError)"
proof -
  have "\<exists>e. image_open ''sprites.png'' w = Inl e
          \<and> e \<in> {FileNotFoundError, IsADirectoryError, UnidentifiedImageError}
          \<and> (entries w ''sprites.png'' = None \<longrightarrow> e = FileNotFoundError)"
    using assms(2) unfolding image_open_sprites
    by (auto split: option.splits node.splits content.splits)
  then obtain e where e: "image_open ''sprites.png'' w = Inl e"
    and kind: "e \<in> {FileNotFoundError, IsADirectoryError, UnidentifiedImageError}"
    and missing: "entries w ''sprites.png'' = None \<longrightarrow> e = FileNotFoundError"
    by (elim exE conjE) (rule that)
  note r = run_open_fails [OF assms(1) e, of crop]
  show ?thesis unfolding r using kind missing by simp
qed

text \<open>C10 on the world with no files at all.\<close>

theorem directory_created_before_open_witness:
  "entries empty_world ''tiles'' = None
   \<and> (\<forall>img. entries empty_world ''sprites.png'' \<noteq> Some (File (Picture img)))
   \<and> entries empty_world ''sprites.png'' = None
   \<and> fst (sprite_into_tiles pil_crop empty_world) = Some FileNotFoundError
   \<and> snd (sprite_into_tiles pil_crop empty_world) =
        \<lparr>entries = [''tiles'' \<mapsto> Dir Map.empty], log = [Mkdir ''tiles/'']\<rparr>"
proof -
  have a: "entries empty_world ''tiles'' = None" by (simp add: empty_world_def)
  have b: "\<forall>img. entries empty_world ''sprites.png'' \<noteq> Some (File (Picture img))"
    by (simp add: empty_world_def)
  have c: "entries empty_world ''sprites.png'' = None" by (simp add: empty_world_def)
  from directory_created_before_open [OF a b, of pil_crop] c
  have "fst (sprite_into_tiles pil_crop empty_world) = Some FileNotFoundError"
    and "snd (sprite_into_tiles pil_crop empty_world) =
        \<lparr>entries = [''tiles'' \<mapsto> Dir Map.empty], log = [Mkdir ''tiles/'']\<rparr>"
    by (simp_all add: empty_world_def)
  with a b c show ?thesis by (intro conjI)
qed




end
